theory Spec2Isabelle
  imports Main "HOL-Library.Sublist"
begin

section \<open>FacebookStrategy: the OAuth 2.0 authorization-code exchange of facebookStrategy.ts\<close>

text \<open>
  The theory embeds the class \<open>FacebookStrategy\<close> of \<open>src/facebookStrategy.ts\<close>.
  A JavaScript string is a \<^typ>\<open>string\<close>: the list of its code units, each an
  8-bit \<^typ>\<open>char\<close> here, which covers the ASCII text of URLs and query strings. An
  \<open>async\<close> method is the function from its inputs to the value its promise settles
  with, and the two effects of the class, \<open>fetch\<close> and \<open>ctx.response.redirect\<close>, are
  recorded in an explicit \<open>world\<close> that the methods thread through.
\<close>

subsection \<open>The string methods the class calls\<close>

text \<open>\<open>s.includes(p)\<close>: \<open>p\<close> occurs in \<open>s\<close> as a contiguous run (the empty \<open>p\<close> always does).\<close>

fun includes_str :: "string \<Rightarrow> string \<Rightarrow> bool" where
  "includes_str [] p = (p = [])"
| "includes_str (c # cs) p = (prefix p (c # cs) \<or> includes_str cs p)"

text \<open>
  \<open>s.replace(p, r)\<close> with a string pattern: the leftmost occurrence of \<open>p\<close> is replaced by
  \<open>r\<close>, and \<open>s\<close> is returned as it is when there is none. The replacement is taken
  literally: the replacement strings of this class are single characters, and the \<open>$\<close>
  patterns of JavaScript need two.
\<close>

fun replace_str :: "string \<Rightarrow> string \<Rightarrow> string \<Rightarrow> string" where
  "replace_str [] p r = (if p = [] then r else [])"
| "replace_str (c # cs) p r =
     (if prefix p (c # cs) then r @ drop (length p) (c # cs) else c # replace_str cs p r)"

text \<open>
  \<open>s.split(sep)\<close> for a separator of one character: the pieces between the separators,
  never an empty array (\<open>''''.split('=')\<close> is \<open>['''']\<close>).
\<close>

fun split_str :: "char \<Rightarrow> string \<Rightarrow> string list" where
  "split_str sep [] = [[]]"
| "split_str sep (c # cs) =
     (if c = sep then [] # split_str sep cs
      else (case split_str sep cs of [] \<Rightarrow> [[c]] | piece # pieces \<Rightarrow> (c # piece) # pieces))"

text \<open>\<open>s.slice(i, j)\<close> for \<open>0 \<le> i \<le> j\<close>, and \<open>s.slice(0, -1)\<close>.\<close>

definition slice_str :: "string \<Rightarrow> nat \<Rightarrow> nat \<Rightarrow> string" where
  "slice_str s i j = take (j - i) (drop i s)"

definition slice_0_minus1 :: "string \<Rightarrow> string" where
  "slice_0_minus1 s = butlast s"

text \<open>\<open>xs[i]\<close> on an array: \<open>undefined\<close> (here \<open>None\<close>) out of range.\<close>

fun at_index :: "'a list \<Rightarrow> nat \<Rightarrow> 'a option" where
  "at_index [] i = None"
| "at_index (x # xs) 0 = Some x"
| "at_index (x # xs) (Suc i) = at_index xs i"

subsection \<open>parseCode\<close>

text \<open>The object literal \<open>replacements\<close>, in the order its keys were written.\<close>

definition replacements :: "(string \<times> string) list" where
  "replacements =
    [(''%24'', ''$''), (''%26'', ''&''), (''%2B'', ''+''), (''%2C'', '',''), (''%2F'', ''/''),
     (''%3A'', '':''), (''%3B'', '';''), (''%3D'', ''=''), (''%3F'', ''?''), (''%40'', ''@'')]"

text \<open>\<open>Object.keys(replacements)\<close> and \<open>replacements[k]\<close> (\<open>undefined\<close> for a missing key,
  which \<open>replace\<close> would write as the text \<open>undefined\<close>).\<close>

definition toReplaceArray :: "string list" where
  "toReplaceArray = map fst replacements"

definition replacement_of :: "string \<Rightarrow> string" where
  "replacement_of k = (case map_of replacements k of Some v \<Rightarrow> v | None \<Rightarrow> ''undefined'')"

text \<open>
  The inner loop \<open>while (encodedCode.includes(k)) encodedCode = encodedCode.replace(k, v)\<close>.
  Nothing in the loop itself bounds it (with \<open>k\<close> empty it would run forever), so it is
  a partial function: \<open>None\<close> is a loop that never ends.
\<close>

partial_function (option) replace_while :: "string \<Rightarrow> string \<Rightarrow> string \<Rightarrow> string option" where
  "replace_while k v encodedCode =
     (if includes_str encodedCode k then replace_while k v (replace_str encodedCode k v)
      else Some encodedCode)"

text \<open>The outer loop \<open>for (let i = 0; i < toReplaceArray.length; i++)\<close>.\<close>

fun parseCode_for :: "string list \<Rightarrow> string \<Rightarrow> string option" where
  "parseCode_for [] encodedCode = Some encodedCode"
| "parseCode_for (k # ks) encodedCode =
     (case replace_while k (replacement_of k) encodedCode of
        None \<Rightarrow> None
      | Some encodedCode' \<Rightarrow> parseCode_for ks encodedCode')"

definition parseCode :: "string \<Rightarrow> string option" where
  "parseCode encodedCode = parseCode_for toReplaceArray encodedCode"

text \<open>
  The decoding the specification describes, written as one pass from left to right: an
  escape sequence of the table becomes its literal character, every other character is
  kept.
\<close>

fun decode :: "string \<Rightarrow> string" where
  "decode (c # a # b # rest) =
     (case map_of replacements [c, a, b] of
        Some lit \<Rightarrow> lit @ decode rest
      | None \<Rightarrow> c # decode (a # b # rest))"
| "decode s = s"

subsection \<open>JavaScript values\<close>

text \<open>
  The values a parsed JSON body or a field of \<open>Options\<close> can hold. The numbers carried
  are the integers (a token lifetime such as 3600); an object is the list of its own
  properties in insertion order.
\<close>

datatype jsval =
    JUndefined
  | JNull
  | JBool bool
  | JNum int
  | JStr string
  | JArr "jsval list"
  | JObj "(string \<times> jsval) list"

text \<open>Errors: \<open>name\<close> and \<open>message\<close> of an \<open>Error\<close> object.\<close>

datatype exn = Exn string string

definition Error :: "string \<Rightarrow> exn" where
  "Error msg = Exn ''Error'' msg"

definition TypeError :: "string \<Rightarrow> exn" where
  "TypeError msg = Exn ''TypeError'' msg"

text \<open>\<open>${err}\<close> in a template literal: \<open>Error.prototype.toString\<close>.\<close>

fun render :: "exn \<Rightarrow> string" where
  "render (Exn name msg) =
     (if msg = [] then name else if name = [] then msg else name @ '': '' @ msg)"

text \<open>\<open>!v\<close>: the falsy values.\<close>

fun falsy :: "jsval \<Rightarrow> bool" where
  "falsy JUndefined = True"
| "falsy JNull = True"
| "falsy (JBool b) = (\<not> b)"
| "falsy (JNum n) = (n = 0)"
| "falsy (JStr s) = (s = [])"
| "falsy (JArr xs) = False"
| "falsy (JObj kvs) = False"

text \<open>\<open>xs.join(sep)\<close> on an array of strings.\<close>

fun join :: "string \<Rightarrow> string list \<Rightarrow> string" where
  "join sep [] = []"
| "join sep [x] = x"
| "join sep (x # y # ys) = x @ sep @ join sep (y # ys)"

text \<open>
  The conversion that \<open>value + '&'\<close> applies to \<open>value\<close>: a string is itself, an
  integer is its decimal numeral (as JavaScript prints it below \<open>10^21\<close>), an array is
  its elements joined by commas with \<open>null\<close> and \<open>undefined\<close> left empty, a plain
  object is \<open>[object Object]\<close>.
\<close>

fun decimal :: "nat \<Rightarrow> string" where
  "decimal n = (if n < 10 then [''0123456789'' ! n] else decimal (n div 10) @ [''0123456789'' ! (n mod 10)])"

declare decimal.simps [simp del]

fun ToString :: "jsval \<Rightarrow> string" where
  "ToString JUndefined = ''undefined''"
| "ToString JNull = ''null''"
| "ToString (JBool b) = (if b then ''true'' else ''false'')"
| "ToString (JNum n) = (if n < 0 then ''-'' @ decimal (nat (- n)) else decimal (nat n))"
| "ToString (JStr s) = s"
| "ToString (JArr xs) =
     join '','' (map (\<lambda>x. if x = JUndefined \<or> x = JNull then [] else ToString x) xs)"
| "ToString (JObj kvs) = ''[object Object]''"

text \<open>
  \<open>v.k\<close> for the property names this class reads (\<open>type\<close>, \<open>access_token\<close>,
  \<open>token_type\<close>, \<open>expires_in\<close>, \<open>data\<close>, \<open>user_id\<close>; none of them is a built-in
  property of a string, number, boolean or array): reading a property of \<open>undefined\<close> or
  \<open>null\<close> throws a TypeError, with the message the V8 engine gives it.
\<close>

fun get_prop :: "jsval \<Rightarrow> string \<Rightarrow> exn + jsval" where
  "get_prop JUndefined k =
     Inl (TypeError (''Cannot read properties of undefined (reading '' @ [CHR 0x27] @ k @ [CHR 0x27] @ '')''))"
| "get_prop JNull k =
     Inl (TypeError (''Cannot read properties of null (reading '' @ [CHR 0x27] @ k @ [CHR 0x27] @ '')''))"
| "get_prop (JObj kvs) k = Inr (case map_of kvs k of Some v \<Rightarrow> v | None \<Rightarrow> JUndefined)"
| "get_prop v k = Inr JUndefined"

subsection \<open>Options and constructURI\<close>

text \<open>
  An object is the list of its own properties in the order they were inserted (no key
  twice); an \<open>Options\<close> object (the interface is imported from \<open>../types.ts\<close>) is such
  a list. \<open>options.k\<close> is \<open>undefined\<close> when the object has no property \<open>k\<close>.
\<close>

type_synonym Options = "(string \<times> jsval) list"

definition opt :: "Options \<Rightarrow> string \<Rightarrow> jsval" where
  "opt options k = (case map_of options k of Some v \<Rightarrow> v | None \<Rightarrow> JUndefined)"

text \<open>
  \<open>Object.entries(o)\<close> does not list the properties in insertion order when a key is an
  array index, that is the decimal numeral, without leading zeros, of an integer from 0
  to \<open>2^32 - 2\<close>: those keys come first, in ascending numeric order, and the other keys
  follow in insertion order.
\<close>

definition is_digit :: "char \<Rightarrow> bool" where
  "is_digit c = (c \<in> set ''0123456789'')"

definition digit_value :: "char \<Rightarrow> nat" where
  "digit_value c = length (takeWhile (\<lambda>d. d \<noteq> c) ''0123456789'')"

definition decimal_value :: "string \<Rightarrow> nat" where
  "decimal_value k = foldl (\<lambda>n c. 10 * n + digit_value c) 0 k"

definition is_array_index :: "string \<Rightarrow> bool" where
  "is_array_index k =
     (k \<noteq> [] \<and> list_all is_digit k \<and> (k = ''0'' \<or> hd k \<noteq> CHR ''0'')
      \<and> decimal_value k < 4294967295)"

definition Object_entries :: "(string \<times> 'a) list \<Rightarrow> (string \<times> 'a) list" where
  "Object_entries obj =
     sort_key (\<lambda>(k, v). decimal_value k) (filter (\<lambda>(k, v). is_array_index k) obj)
     @ filter (\<lambda>(k, v). \<not> is_array_index k) obj"

text \<open>The \<open>for\<close> loop of \<open>constructURI\<close> over \<open>paramArray\<close>, with \<open>paramString\<close> as
  accumulator; \<open>skip\<close> is \<open>None\<close> when the argument is left out.\<close>

fun constructURI_for :: "Options \<Rightarrow> string option \<Rightarrow> string \<Rightarrow> string" where
  "constructURI_for [] skip paramString = paramString"
| "constructURI_for ((key, value) # paramArray) skip paramString =
     (if Some key = skip then constructURI_for paramArray skip paramString
      else constructURI_for paramArray skip
             ((paramString @ (key @ ''='')) @ (ToString value @ ''&'')))"

definition constructURI :: "Options \<Rightarrow> string option \<Rightarrow> string" where
  "constructURI options skip =
     (let paramArray = Object_entries options;
          paramString = constructURI_for paramArray skip [] in
      if paramString \<noteq> [] \<and> last paramString = CHR ''&''
      then slice_0_minus1 paramString
      else paramString)"

subsection \<open>The class and its constructor\<close>

record FacebookStrategy =
  name :: string
  options :: Options
  uriFromParams :: string
  authURL :: string
  tokenURL :: string
  authDataURL :: string

definition constructor :: "Options \<Rightarrow> exn + FacebookStrategy" where
  "constructor options' =
     (if falsy (opt options' ''client_id'') \<or> falsy (opt options' ''redirect_uri'')
         \<or> falsy (opt options' ''state'') \<or> falsy (opt options' ''client_secret'')
      then Inl (Error ''ERROR in FacebookStrategy constructor: Missing required arguments'')
      else Inr \<lparr> name = ''facebook'',
                 options = options',
                 uriFromParams = constructURI options' (Some ''client_secret''),
                 authURL = ''https://www.facebook.com/v9.0/dialog/oauth?'',
                 tokenURL = ''https://graph.facebook.com/v9.0/oauth/access_token?'',
                 authDataURL = ''https://graph.facebook.com/debug_token?'' \<rparr>)"

subsection \<open>Effects: the HTTP client and the redirect\<close>

text \<open>
  The world records, in order, the URLs given to \<open>fetch\<close> and the URLs given to
  \<open>ctx.response.redirect\<close>. The network is a parameter: what \<open>fetch(url)\<close> followed
  by \<open>.json()\<close> gives, as a function of the requests made before and of \<open>url\<close>;
  either the parsed body, or the error thrown by the request or by the parser.
\<close>

record world =
  fetched :: "string list"
  redirected :: "string list"

datatype fetch_result = Throws exn | Json jsval

type_synonym network = "string list \<Rightarrow> string \<Rightarrow> fetch_result"

definition fetch_json :: "network \<Rightarrow> string \<Rightarrow> world \<Rightarrow> fetch_result \<times> world" where
  "fetch_json net url w = (net (fetched w) url, w\<lparr>fetched := fetched w @ [url]\<rparr>)"

text \<open>The request: \<open>ctx.request.url.search\<close> is all the class reads of it.\<close>

record OakContext =
  search :: string

subsection \<open>Results\<close>

record TokenData =
  access_token :: jsval
  token_type :: jsval
  expires_in :: jsval

record UserInfo =
  provider :: string
  providerUserId :: jsval

record AuthData =
  tokenData :: TokenData
  userInfo :: UserInfo

text \<open>
  What an \<open>async\<close> method settles with: it resolves with a value (\<open>undefined\<close>, an
  \<open>Error\<close> object that was returned, not thrown, or an \<open>AuthData\<close>), or it rejects
  with what was thrown.
\<close>

datatype retval = RUndefined | RError exn | RAuthData AuthData

datatype outcome = Resolved retval | Rejected exn

subsection \<open>getAuthData\<close>

definition authOptions :: "FacebookStrategy \<Rightarrow> AuthData \<Rightarrow> Options" where
  "authOptions self authData =
     [(''input_token'', access_token (tokenData authData)),
      (''access_token'',
         JStr (ToString (opt (options self) ''client_id'') @ ''|''
               @ ToString (opt (options self) ''client_secret'')))]"

definition getAuthData_catch :: "exn \<Rightarrow> retval" where
  "getAuthData_catch err =
     RError (Error (''ERROR in getAuthData: Unable to obtain auth data - '' @ render err))"

definition getAuthData :: "FacebookStrategy \<Rightarrow> network \<Rightarrow> jsval \<Rightarrow> world \<Rightarrow> outcome \<times> world" where
  "getAuthData self net parsed w =
     (case get_prop parsed ''access_token'' of Inl err \<Rightarrow> (Rejected err, w) | Inr at \<Rightarrow>
      case get_prop parsed ''token_type'' of Inl err \<Rightarrow> (Rejected err, w) | Inr tt \<Rightarrow>
      case get_prop parsed ''expires_in'' of Inl err \<Rightarrow> (Rejected err, w) | Inr ei \<Rightarrow>
      let authData = \<lparr> tokenData = \<lparr> access_token = at, token_type = tt, expires_in = ei \<rparr>,
                        userInfo = \<lparr> provider = [], providerUserId = JStr [] \<rparr> \<rparr>;
          (response, w') = fetch_json net (authDataURL self @ constructURI (authOptions self authData) None) w
      in case response of
           Throws err \<Rightarrow> (Resolved (getAuthData_catch err), w')
         | Json data \<Rightarrow>
             (case get_prop data ''data'' of Inl err \<Rightarrow> (Resolved (getAuthData_catch err), w') | Inr d \<Rightarrow>
              case get_prop d ''user_id'' of Inl err \<Rightarrow> (Resolved (getAuthData_catch err), w') | Inr uid \<Rightarrow>
              (Resolved (RAuthData (authData\<lparr> userInfo := \<lparr> provider = name self, providerUserId = uid \<rparr> \<rparr>)),
               w')))"

subsection \<open>getAuthToken\<close>

text \<open>
  Lines 132 to 135: \<open>URI1 = OGURI.split('=')\<close>, \<open>URI2 = URI1[1].split('&')\<close>, and
  \<open>URI2[0]\<close>, the code as the provider escaped it. \<open>URI1[1]\<close> is \<open>undefined\<close> when
  \<open>OGURI\<close> has no \<open>=\<close>, and calling \<open>split\<close> on it throws.
\<close>

definition undefined_split :: exn where
  "undefined_split = TypeError (''Cannot read properties of undefined (reading '' @ [CHR 0x27] @ ''split'' @ [CHR 0x27] @ '')'')"

definition undefined_includes :: exn where
  "undefined_includes = TypeError (''Cannot read properties of undefined (reading '' @ [CHR 0x27] @ ''includes'' @ [CHR 0x27] @ '')'')"

definition rawCode :: "string \<Rightarrow> exn + string" where
  "rawCode OGURI =
     (let URI1 = split_str CHR ''='' OGURI in
      case at_index URI1 1 of
        None \<Rightarrow> Inl undefined_split
      | Some URI1_1 \<Rightarrow>
          (let URI2 = split_str CHR ''&'' URI1_1 in
           case at_index URI2 0 of
             None \<Rightarrow> Inl undefined_includes
           | Some URI2_0 \<Rightarrow> Inr URI2_0))"

definition tokenOptions :: "FacebookStrategy \<Rightarrow> string \<Rightarrow> Options" where
  "tokenOptions self code =
     [(''client_id'', opt (options self) ''client_id''),
      (''redirect_uri'', opt (options self) ''redirect_uri''),
      (''client_secret'', opt (options self) ''client_secret''),
      (''code'', JStr code)]"

definition getAuthToken_catch :: "exn \<Rightarrow> retval" where
  "getAuthToken_catch err =
     RError (Error (''ERROR in getAuthToken: Unable to obtain token - '' @ render err))"

text \<open>\<open>None\<close> is a call that never settles, because \<open>parseCode\<close> does not return.\<close>

definition getAuthToken ::
  "FacebookStrategy \<Rightarrow> network \<Rightarrow> OakContext \<Rightarrow> world \<Rightarrow> (outcome \<times> world) option" where
  "getAuthToken self net ctx w =
     (let OGURI = search ctx in
      if includes_str OGURI ''error''
      then Some (Resolved (RError (Error
             ''ERROR in getAuthToken: Received an error from auth token code request.'')), w)
      else
        case rawCode OGURI of
          Inl err \<Rightarrow> Some (Rejected err, w)
        | Inr URI2_0 \<Rightarrow>
           (case parseCode URI2_0 of
              None \<Rightarrow> None
            | Some code \<Rightarrow>
               (let (response, w') =
                      fetch_json net (tokenURL self @ constructURI (tokenOptions self code) None) w
                in case response of
                     Throws err \<Rightarrow> Some (Resolved (getAuthToken_catch err), w')
                   | Json data \<Rightarrow>
                       (case get_prop data ''type'' of
                          Inl err \<Rightarrow> Some (Resolved (getAuthToken_catch err), w')
                        | Inr ty \<Rightarrow>
                            if ty = JStr ''oAuthException''
                            then Some (Resolved (RError (Error
                                   ''ERROR in getAuthToken: Token request threw OAuth exception.'')), w')
                            else Some (getAuthData self net data w')))))"

subsection \<open>authorize and router\<close>

definition authorize :: "FacebookStrategy \<Rightarrow> OakContext \<Rightarrow> world \<Rightarrow> outcome \<times> world" where
  "authorize self ctx w =
     (Resolved RUndefined, w\<lparr>redirected := redirected w @ [authURL self @ uriFromParams self]\<rparr>)"

definition router ::
  "FacebookStrategy \<Rightarrow> network \<Rightarrow> OakContext \<Rightarrow> world \<Rightarrow> (outcome \<times> world) option" where
  "router self net ctx w =
     (if search ctx = [] then Some (authorize self ctx w)
      else if slice_str (search ctx) 1 5 = ''code'' then getAuthToken self net ctx w
      else Some (Resolved RUndefined, w))"

subsection \<open>A concrete instance, its two request URLs and two networks\<close>

definition example_options :: Options where
  "example_options =
     [(''client_id'', JStr ''123''), (''client_secret'', JStr ''shh''),
      (''redirect_uri'', JStr ''https://app.example/cb''), (''state'', JStr ''xyz'')]"

definition example_strategy :: FacebookStrategy where
  "example_strategy =
     \<lparr> name = ''facebook'',
       options = example_options,
       uriFromParams = ''client_id=123&redirect_uri=https://app.example/cb&state=xyz'',
       authURL = ''https://www.facebook.com/v9.0/dialog/oauth?'',
       tokenURL = ''https://graph.facebook.com/v9.0/oauth/access_token?'',
       authDataURL = ''https://graph.facebook.com/debug_token?'' \<rparr>"

definition example_token_url :: string where
  "example_token_url =
     ''https://graph.facebook.com/v9.0/oauth/access_token?client_id=123&redirect_uri=https://app.example/cb&client_secret=shh&code=abc=123''"

definition example_identity_url :: string where
  "example_identity_url = ''https://graph.facebook.com/debug_token?input_token=T&access_token=123|shh''"

definition example_network :: network where
  "example_network history url =
     (if history = [] \<and> url = example_token_url
      then Json (JObj [(''access_token'', JStr ''T''), (''token_type'', JStr ''bearer''),
                       (''expires_in'', JNum 3600)])
      else if history = [example_token_url] \<and> url = example_identity_url
      then Json (JObj [(''data'', JObj [(''user_id'', JStr ''U1'')])])
      else Throws (TypeError ''Failed to fetch''))"

definition refusing_network :: network where
  "refusing_network history url = Json (JObj [(''type'', JStr ''oAuthException'')])"

subsection \<open>Properties of the escape table, as executable checks\<close>

text \<open>
  A character that is neither the second nor the third character of any escape sequence
  of the table: where it stands, no escape sequence can continue.
\<close>

definition breaker :: "char \<Rightarrow> bool" where
  "breaker c = (c \<notin> set (concat (map (tl \<circ> fst) replacements)))"

text \<open>
  The shape of an entry: the key is a percent sign and two characters that are not
  breakers, the value is one character that is a breaker and not a percent sign, and
  looking the key up gives the value (no key is written twice).
\<close>

definition entry_ok :: "string \<times> string \<Rightarrow> bool" where
  "entry_ok e = (case e of (p, l) \<Rightarrow>
     (case p of [x, a, b] \<Rightarrow> x = CHR ''%'' \<and> \<not> breaker a \<and> \<not> breaker b | _ \<Rightarrow> False) \<and>
     (case l of [c] \<Rightarrow> c \<noteq> CHR ''%'' \<and> breaker c | _ \<Rightarrow> False) \<and>
     map_of replacements p = Some l)"

section \<open>Verification\<close>

subsection \<open>Strings: occurrences and the replacement of the first one\<close>

lemma includes_sublist: "includes_str s p = sublist p s"
  by (induction s) (auto simp: sublist_Cons_right)

lemma replace_prefix: "prefix p s \<Longrightarrow> replace_str s p r = r @ drop (length p) s"
  by (cases s) auto

lemma replace_decomp:
  "includes_str s p \<Longrightarrow> \<exists>u w. s = u @ p @ w \<and> replace_str s p r = u @ r @ w"
proof (induction s)
  case Nil then show ?case by simp
next
  case (Cons c cs)
  show ?case
  proof (cases "prefix p (c # cs)")
    case True
    then obtain w where w: "c # cs = p @ w" by (auto simp: prefix_def)
    have "replace_str (c # cs) p r = [] @ r @ w"
      using replace_prefix[OF True, of r] w by simp
    with w show ?thesis by (metis append_Nil)
  next
    case False
    with Cons.prems have "includes_str cs p" by simp
    from Cons.IH[OF this] obtain u w where uw: "cs = u @ p @ w" "replace_str cs p r = u @ r @ w" by blast
    have "c # cs = (c # u) @ p @ w \<and> replace_str (c # cs) p r = (c # u) @ r @ w"
      using False uw by simp
    then show ?thesis by blast
  qed
qed

subsection \<open>The escape table and the one-pass decoding\<close>

lemma breaker_iff: "breaker c \<longleftrightarrow> c \<notin> set ''2346BCFAD0''"
  by (auto simp: breaker_def replacements_def)

lemma map_of_breaker3: "breaker b \<Longrightarrow> map_of replacements [c, a, b] = None"
  by (simp add: breaker_iff replacements_def)

lemma map_of_breaker2: "breaker a \<Longrightarrow> map_of replacements [c, a, b] = None"
  by (simp add: breaker_iff replacements_def)

lemma map_of_not_percent: "c \<noteq> CHR ''%'' \<Longrightarrow> map_of replacements [c, a, b] = None"
  by (simp add: replacements_def)

lemma decode_breaker3: "breaker b \<Longrightarrow> decode (c # a # b # l) = c # decode (a # b # l)"
  by (simp add: map_of_breaker3)

lemma decode_breaker2: "breaker a \<Longrightarrow> decode (c # a # l) = c # decode (a # l)"
  by (cases l) (simp_all add: map_of_breaker2)

lemma decode_not_percent: "c \<noteq> CHR ''%'' \<Longrightarrow> decode (c # l) = c # decode l"
proof (cases l)
  case Nil then show ?thesis by simp
next
  case (Cons a m)
  assume c: "c \<noteq> CHR ''%''"
  show ?thesis
  proof (cases m)
    case Nil with Cons show ?thesis by simp
  next
    case (Cons b n)
    with \<open>l = a # m\<close> c show ?thesis by (simp add: map_of_not_percent)
  qed
qed

lemma decode_append:
  "w = [] \<or> breaker (hd w) \<Longrightarrow> decode (u @ w) = decode u @ decode w"
  apply (induction u rule: decode.induct)
  subgoal for c a b rest by (simp split: option.splits)
  subgoal by simp
  subgoal for v by (cases w) (simp_all add: decode_breaker2)
  subgoal for v va by (cases w) (simp_all add: map_of_breaker3 decode_breaker2)
  done

lemma entries_ok: "list_all entry_ok replacements"
  by (simp add: replacements_def entry_ok_def breaker_iff)

lemma entry_shape:
  assumes "(p, l) \<in> set replacements"
  shows "\<exists>a b c. p = [CHR ''%'', a, b] \<and> l = [c] \<and> c \<noteq> CHR ''%'' \<and> breaker c \<and> \<not> breaker a \<and> \<not> breaker b
       \<and> map_of replacements p = Some l"
proof -
  from entries_ok assms have "entry_ok (p, l)" by (auto simp: list_all_iff)
  then show ?thesis
    by (auto simp: entry_ok_def split: list.splits)
qed

lemma breaker_percent: "breaker (CHR ''%'')"
  by (simp add: breaker_iff)

lemma decode_step:
  assumes "(p, l) \<in> set replacements"
  shows "decode (u @ p @ w) = decode (u @ l @ w)"
proof -
  from entry_shape[OF assms] obtain a b c where
    s: "p = [CHR ''%'', a, b]" "l = [c]" "c \<noteq> CHR ''%''" "breaker c" "map_of replacements p = Some l"
    by blast
  have "decode (u @ p @ w) = decode u @ decode (p @ w)"
    by (rule decode_append) (simp add: s breaker_percent)
  also have "decode (p @ w) = l @ decode w" using s by simp
  also have "l @ decode w = decode (l @ w)" using s by (simp add: decode_not_percent)
  also have "decode u @ decode (l @ w) = decode (u @ l @ w)"
    by (rule decode_append[symmetric]) (simp add: s)
  finally show ?thesis .
qed

lemma sublist_avoid:
  assumes "c \<notin> set q" "sublist q (u @ c # w)"
  shows "sublist q u \<or> sublist q w"
proof -
  from assms(2) consider "sublist q u" | "sublist q (c # w)"
    | q1 q2 where "q = q1 @ q2" "suffix q1 u" "prefix q2 (c # w)"
    by (auto simp: sublist_append)
  then show ?thesis
  proof cases
    case 1 then show ?thesis by simp
  next
    case 2
    then have "prefix q (c # w) \<or> sublist q w" by (simp add: sublist_Cons_right)
    then show ?thesis
    proof
      assume "prefix q (c # w)"
      with assms(1) have "q = []" by (cases q) auto
      then show ?thesis by simp
    qed simp
  next
    case 3
    from 3(3) assms(1) 3(1) have "q2 = []" by (cases q2) auto
    with 3 have "suffix q u" by simp
    then show ?thesis by (simp add: suffix_imp_sublist)
  qed
qed

lemma literal_not_in_key:
  assumes "(p, l) \<in> set replacements" "q \<in> set toReplaceArray"
  shows "\<exists>c. l = [c] \<and> c \<notin> set q"
proof -
  from assms(2) obtain l' where "(q, l') \<in> set replacements"
    by (auto simp: toReplaceArray_def)
  from entry_shape[OF this] obtain a b where q: "q = [CHR ''%'', a, b]" "\<not> breaker a" "\<not> breaker b"
    by blast
  from entry_shape[OF assms(1)] obtain c where c: "l = [c]" "c \<noteq> CHR ''%''" "breaker c"
    by blast
  from q c have "c \<notin> set q" by auto
  with c show ?thesis by simp
qed

lemma replace_length:
  assumes "(p, l) \<in> set replacements" "includes_str s p"
  shows "length (replace_str s p l) + 2 = length s"
proof -
  from replace_decomp[OF assms(2), of l] obtain u w where
    "s = u @ p @ w" "replace_str s p l = u @ l @ w" by blast
  moreover from entry_shape[OF assms(1)] have "length p = 3" "length l = 1" by auto
  ultimately show ?thesis by simp
qed

lemma replace_decode:
  assumes "(p, l) \<in> set replacements" "includes_str s p"
  shows "decode (replace_str s p l) = decode s"
proof -
  from replace_decomp[OF assms(2), of l] obtain u w where
    "s = u @ p @ w" "replace_str s p l = u @ l @ w" by blast
  then show ?thesis using decode_step[OF assms(1), of u w] by simp
qed

lemma replace_no_new:
  assumes "(p, l) \<in> set replacements" "q \<in> set toReplaceArray"
    "includes_str s p" "\<not> includes_str s q"
  shows "\<not> includes_str (replace_str s p l) q"
proof -
  from replace_decomp[OF assms(3), of l] obtain u w where
    uw: "s = u @ p @ w" "replace_str s p l = u @ l @ w" by blast
  from literal_not_in_key[OF assms(1,2)] obtain c where c: "l = [c]" "c \<notin> set q" by blast
  show ?thesis
  proof
    assume "includes_str (replace_str s p l) q"
    then have "sublist q (u @ c # w)" using uw c by (simp add: includes_sublist)
    from sublist_avoid[OF c(2) this] have "sublist q u \<or> sublist q w" .
    then have "sublist q (u @ p @ w)" by (auto simp: sublist_append)
    with assms(4) uw show False by (simp add: includes_sublist)
  qed
qed

lemma replace_while_entry:
  assumes e: "(p, l) \<in> set replacements"
  shows "\<exists>r. replace_while p l s = Some r \<and> decode r = decode s \<and> \<not> includes_str r p
           \<and> (\<forall>q\<in>set toReplaceArray. \<not> includes_str s q \<longrightarrow> \<not> includes_str r q)"
proof (induction "length s" arbitrary: s rule: less_induct)
  case less
  show ?case
  proof (cases "includes_str s p")
    case False
    then show ?thesis by (subst replace_while.simps) simp
  next
    case True
    let ?s = "replace_str s p l"
    have "length ?s < length s" using replace_length[OF e True] by simp
    from less[OF this] obtain r where r: "replace_while p l ?s = Some r" "decode r = decode ?s"
      "\<not> includes_str r p" "\<forall>q\<in>set toReplaceArray. \<not> includes_str ?s q \<longrightarrow> \<not> includes_str r q"
      by blast
    have "replace_while p l s = Some r" using True r(1) by (subst replace_while.simps) simp
    moreover have "decode r = decode s" using r(2) replace_decode[OF e True] by simp
    moreover have "\<forall>q\<in>set toReplaceArray. \<not> includes_str s q \<longrightarrow> \<not> includes_str r q"
      using r(4) replace_no_new[OF e _ True] by blast
    ultimately show ?thesis using r(3) by blast
  qed
qed

lemma key_entry: "k \<in> set toReplaceArray \<Longrightarrow> (k, replacement_of k) \<in> set replacements"
proof -
  assume "k \<in> set toReplaceArray"
  then obtain l where kl: "(k, l) \<in> set replacements" by (auto simp: toReplaceArray_def)
  from entry_shape[OF this] have "map_of replacements k = Some l" by blast
  then have "replacement_of k = l" by (simp add: replacement_of_def)
  with kl show ?thesis by simp
qed

lemma parseCode_for_keys:
  assumes "set ks \<subseteq> set toReplaceArray"
  shows "\<exists>r. parseCode_for ks s = Some r \<and> decode r = decode s
           \<and> (\<forall>q\<in>set ks. \<not> includes_str r q)
           \<and> (\<forall>q\<in>set toReplaceArray. \<not> includes_str s q \<longrightarrow> \<not> includes_str r q)"
  using assms
proof (induction ks arbitrary: s)
  case Nil
  then show ?case by simp
next
  case (Cons k ks)
  then have k: "k \<in> set toReplaceArray" and ks: "set ks \<subseteq> set toReplaceArray" by auto
  from replace_while_entry[OF key_entry[OF k], of s] obtain t where
    t: "replace_while k (replacement_of k) s = Some t" "decode t = decode s" "\<not> includes_str t k"
       "\<forall>q\<in>set toReplaceArray. \<not> includes_str s q \<longrightarrow> \<not> includes_str t q"
    by blast
  from Cons.IH[OF ks, of t] obtain r where
    r: "parseCode_for ks t = Some r" "decode r = decode t" "\<forall>q\<in>set ks. \<not> includes_str r q"
       "\<forall>q\<in>set toReplaceArray. \<not> includes_str t q \<longrightarrow> \<not> includes_str r q"
    by blast
  have "parseCode_for (k # ks) s = Some r" using t(1) r(1) by simp
  moreover have "decode r = decode s" using t(2) r(2) by simp
  moreover have "\<forall>q\<in>set (k # ks). \<not> includes_str r q" using r(3,4) t(3) k by auto
  moreover have "\<forall>q\<in>set toReplaceArray. \<not> includes_str s q \<longrightarrow> \<not> includes_str r q"
    using t(4) r(4) by blast
  ultimately show ?case by blast
qed

lemma map_of_key: "map_of replacements p = Some l \<Longrightarrow> p \<in> set toReplaceArray"
  by (auto simp: toReplaceArray_def dest: map_of_SomeD intro: rev_image_eqI)

lemma decode_id:
  "\<forall>q\<in>set toReplaceArray. \<not> includes_str s q \<Longrightarrow> decode s = s"
proof (induction s rule: decode.induct)
  case (1 c a b rest)
  have none: "map_of replacements [c, a, b] = None"
  proof (rule ccontr)
    assume "map_of replacements [c, a, b] \<noteq> None"
    then obtain l where "map_of replacements [c, a, b] = Some l" by auto
    from map_of_key[OF this] 1(3) have "\<not> includes_str (c # a # b # rest) [c, a, b]" by blast
    then show False by simp
  qed
  have "\<forall>q\<in>set toReplaceArray. \<not> includes_str (a # b # rest) q"
    using 1(3) by simp
  from 1(1)[OF none this] none show ?case by simp
qed simp_all

lemma parseCode_decode: "parseCode s = Some (decode s)"
proof -
  from parseCode_for_keys[of toReplaceArray s] obtain r where
    r: "parseCode_for toReplaceArray s = Some r" "decode r = decode s"
       "\<forall>q\<in>set toReplaceArray. \<not> includes_str r q"
    by auto
  from decode_id[OF r(3)] r(1,2) show ?thesis by (simp add: parseCode_def)
qed

subsection \<open>parseCode decodes the table's escape sequences\<close>

lemma decode_no_escape:
  "\<forall>k\<in>set toReplaceArray. \<not> includes_str (decode s) k"
proof -
  from parseCode_for_keys[of toReplaceArray s] obtain r where
    r: "parseCode_for toReplaceArray s = Some r"
       "\<forall>q\<in>set toReplaceArray. \<not> includes_str r q"
    by auto
  from r(1) parseCode_decode[of s] have "r = decode s" by (simp add: parseCode_def)
  with r(2) show ?thesis by simp
qed

lemma toReplaceArray_eq:
  "toReplaceArray = [''%24'', ''%26'', ''%2B'', ''%2C'', ''%2F'', ''%3A'', ''%3B'', ''%3D'', ''%3F'', ''%40'']"
  by (simp add: toReplaceArray_def replacements_def)

text \<open>
  Claim C3. \<open>parseCode\<close> is the table-driven decoding: on every input it returns the
  string in which every occurrence of the ten escape sequences \<open>%24 %26 %2B %2C %2F %3A
  %3B %3D %3F %40\<close> has become its literal character (the one-pass \<open>decode\<close>), no
  occurrence of an escape sequence is left in the result, a string that contains none of
  the ten sequences is returned unchanged, and \<open>parseCode("%3D%26")\<close> is \<open>=&\<close>,
  \<open>parseCode("%2C%2C")\<close> is \<open>,,\<close>.
\<close>

theorem parseCode_table_driven:
  "parseCode s = Some (decode s)
   \<and> (\<forall>k\<in>set [''%24'', ''%26'', ''%2B'', ''%2C'', ''%2F'', ''%3A'', ''%3B'', ''%3D'', ''%3F'', ''%40''].
         \<not> includes_str (decode s) k)
   \<and> ((\<forall>k\<in>set [''%24'', ''%26'', ''%2B'', ''%2C'', ''%2F'', ''%3A'', ''%3B'', ''%3D'', ''%3F'', ''%40''].
         \<not> includes_str s k) \<longrightarrow> parseCode s = Some s)
   \<and> parseCode ''%3D%26'' = Some ''=&''
   \<and> parseCode ''%2C%2C'' = Some '',,''"
proof -
  have a: "parseCode s = Some (decode s)" by (rule parseCode_decode)
  have b: "\<forall>k\<in>set [''%24'', ''%26'', ''%2B'', ''%2C'', ''%2F'', ''%3A'', ''%3B'', ''%3D'', ''%3F'', ''%40''].
         \<not> includes_str (decode s) k"
    using decode_no_escape[of s] unfolding toReplaceArray_eq .
  have c: "(\<forall>k\<in>set [''%24'', ''%26'', ''%2B'', ''%2C'', ''%2F'', ''%3A'', ''%3B'', ''%3D'', ''%3F'', ''%40''].
         \<not> includes_str s k) \<longrightarrow> parseCode s = Some s"
    using decode_id[of s] parseCode_decode[of s] unfolding toReplaceArray_eq by simp
  have d: "parseCode ''%3D%26'' = Some ''=&''"
    by (simp add: parseCode_decode replacements_def)
  have e: "parseCode ''%2C%2C'' = Some '',,''"
    by (simp add: parseCode_decode replacements_def)
  from a b c d e show ?thesis by blast
qed

theorem parseCode_table_driven_witness:
  "list_all (\<lambda>k. \<not> includes_str ''AQB%2b_x%4'' k)
     [''%24'', ''%26'', ''%2B'', ''%2C'', ''%2F'', ''%3A'', ''%3B'', ''%3D'', ''%3F'', ''%40'']
   \<and> parseCode ''AQB%2b_x%4'' = Some ''AQB%2b_x%4''
   \<and> parseCode ''a%24%24b%3'' = Some ''a$$b%3''"
  using parseCode_table_driven[of "''AQB%2b_x%4''"] parseCode_table_driven[of "''a%24%24b%3''"]
  by (simp add: replacements_def)

text \<open>
  Claim C9. \<open>parseCode\<close> returns a string on every input, each of its inner
  \<open>while\<close> loops returns, and an iteration of such a loop (the string includes the
  key, and its first occurrence is replaced) makes the string two characters shorter.
\<close>

theorem parseCode_terminates:
  "(\<exists>r. parseCode s = Some r)
   \<and> (\<forall>k\<in>set toReplaceArray.
        (\<exists>r. replace_while k (replacement_of k) t = Some r)
        \<and> (includes_str t k \<longrightarrow> length (replace_str t k (replacement_of k)) + 2 = length t))"
proof -
  have "\<exists>r. parseCode s = Some r" by (simp add: parseCode_decode)
  moreover have "\<exists>r. replace_while k (replacement_of k) t = Some r" if "k \<in> set toReplaceArray" for k
    using replace_while_entry[OF key_entry[OF that], of t] by blast
  moreover have "length (replace_str t k (replacement_of k)) + 2 = length t"
    if "k \<in> set toReplaceArray" "includes_str t k" for k
    using replace_length[OF key_entry[OF that(1)] that(2)] .
  ultimately show ?thesis by blast
qed

theorem parseCode_terminates_witness:
  "(\<exists>r. parseCode ''%3D%26%zz'' = Some r)
   \<and> ''%24'' \<in> set toReplaceArray
   \<and> includes_str ''a%24b%24'' ''%24''
   \<and> (\<exists>r. replace_while ''%24'' (replacement_of ''%24'') ''a%24b%24'' = Some r)
   \<and> length (replace_str ''a%24b%24'' ''%24'' (replacement_of ''%24'')) + 2 = length ''a%24b%24''"
proof -
  have k: "''%24'' \<in> set toReplaceArray" by (simp add: toReplaceArray_eq)
  have i: "includes_str ''a%24b%24'' ''%24''" by simp
  from parseCode_terminates[of "''%3D%26%zz''" "''a%24b%24''"] k i show ?thesis by blast
qed

subsection \<open>The callback: extraction of the code, and the branches of getAuthToken and router\<close>

lemma split_str_notin: "sep \<notin> set s \<Longrightarrow> split_str sep s = [s]"
  by (induction s) auto

lemma split_str_append:
  "sep \<notin> set a \<Longrightarrow> split_str sep (a @ sep # rest) = a # split_str sep rest"
  by (induction a) auto

lemma split_str_hd: "\<exists>ps. split_str sep s = takeWhile (\<lambda>c. c \<noteq> sep) s # ps"
  by (induction s) auto

lemma split_str_in: "sep \<in> set s \<Longrightarrow> \<exists>a b ps. split_str sep s = a # b # ps"
proof -
  assume "sep \<in> set s"
  then obtain a rest where "s = a @ sep # rest" "sep \<notin> set a" by (meson split_list_first)
  moreover obtain ps where "split_str sep rest = takeWhile (\<lambda>c. c \<noteq> sep) rest # ps"
    using split_str_hd by blast
  ultimately show ?thesis by (simp add: split_str_append)
qed

lemma rawCode_no_equals: "CHR ''='' \<notin> set q \<Longrightarrow> rawCode q = Inl undefined_split"
  by (simp add: rawCode_def split_str_notin)

lemma rawCode_equals: "CHR ''='' \<in> set q \<Longrightarrow> \<exists>raw. rawCode q = Inr raw"
proof -
  assume "CHR ''='' \<in> set q"
  from split_str_in[OF this] obtain a b ps where s: "split_str CHR ''='' q = a # b # ps" by blast
  obtain qs where "split_str CHR ''&'' b = takeWhile (\<lambda>c. c \<noteq> CHR ''&'') b # qs"
    using split_str_hd by blast
  with s show ?thesis by (simp add: rawCode_def)
qed

lemma rawCode_code:
  "rawCode (''?code='' @ rest) = Inr (takeWhile (\<lambda>c. c \<noteq> CHR ''&'') (takeWhile (\<lambda>c. c \<noteq> CHR ''='') rest))"
proof -
  obtain ps where ps: "split_str CHR ''='' rest = takeWhile (\<lambda>c. c \<noteq> CHR ''='') rest # ps"
    using split_str_hd by blast
  have "split_str CHR ''='' (''?code'' @ CHR ''='' # rest) = ''?code'' # split_str CHR ''='' rest"
    by (rule split_str_append) simp
  then have s: "split_str CHR ''='' (''?code='' @ rest) = ''?code'' # takeWhile (\<lambda>c. c \<noteq> CHR ''='') rest # ps"
    using ps by simp
  obtain qs where "split_str CHR ''&'' (takeWhile (\<lambda>c. c \<noteq> CHR ''='') rest)
       = takeWhile (\<lambda>c. c \<noteq> CHR ''&'') (takeWhile (\<lambda>c. c \<noteq> CHR ''='') rest) # qs"
    using split_str_hd by blast
  with s show ?thesis unfolding rawCode_def by simp
qed

text \<open>
  Claim C5. When the query string contains \<open>error\<close>, \<open>getAuthToken\<close> resolves at once
  with the authorization-denied \<open>Error\<close> value, and the world is the one it was given:
  no URL has been fetched.
\<close>

theorem getAuthToken_error_query:
  "includes_str (search ctx) ''error'' \<Longrightarrow>
   getAuthToken self net ctx w =
     Some (Resolved (RError (Error
       ''ERROR in getAuthToken: Received an error from auth token code request.'')), w)"
  by (simp add: getAuthToken_def)

theorem getAuthToken_error_query_witness:
  "\<forall>self net w. includes_str ''?code=4%2FP7q&error=access_denied'' ''error'' \<and>
   getAuthToken self net \<lparr>search = ''?code=4%2FP7q&error=access_denied''\<rparr> w =
     Some (Resolved (RError (Error
       ''ERROR in getAuthToken: Received an error from auth token code request.'')), w)"
proof (intro allI)
  fix self net w
  have i: "includes_str (search \<lparr>search = ''?code=4%2FP7q&error=access_denied''\<rparr>) ''error''" by simp
  from getAuthToken_error_query[OF i, of self net w] i
  show "includes_str ''?code=4%2FP7q&error=access_denied'' ''error'' \<and>
   getAuthToken self net \<lparr>search = ''?code=4%2FP7q&error=access_denied''\<rparr> w =
     Some (Resolved (RError (Error
       ''ERROR in getAuthToken: Received an error from auth token code request.'')), w)" by simp
qed

text \<open>
  Claim C10. When the query string contains neither \<open>error\<close> nor \<open>=\<close>,
  \<open>getAuthToken\<close> rejects with the TypeError of \<open>undefined.split\<close> (it does not
  resolve with an \<open>Error\<close> value), before any request; \<open>router\<close> dispatches \<open>?code\<close>
  to it and rejects in the same way; and the extraction of the code yields a fragment
  exactly when the query string contains \<open>=\<close>.
\<close>

theorem getAuthToken_no_equals_rejects:
  "(\<not> includes_str (search ctx) ''error'' \<and> CHR ''='' \<notin> set (search ctx)
      \<longrightarrow> getAuthToken self net ctx w = Some (Rejected undefined_split, w))
   \<and> router self net \<lparr>search = ''?code''\<rparr> w = Some (Rejected undefined_split, w)
   \<and> ((\<exists>raw. rawCode q = Inr raw) \<longleftrightarrow> CHR ''='' \<in> set q)"
proof -
  have a: "getAuthToken self net ctx w = Some (Rejected undefined_split, w)"
    if "\<not> includes_str (search ctx) ''error''" "CHR ''='' \<notin> set (search ctx)"
    using that by (simp add: getAuthToken_def rawCode_no_equals)
  have b: "router self net \<lparr>search = ''?code''\<rparr> w = Some (Rejected undefined_split, w)"
    by (simp add: router_def slice_str_def getAuthToken_def rawCode_no_equals)
  have c: "(\<exists>raw. rawCode q = Inr raw) \<longleftrightarrow> CHR ''='' \<in> set q"
    using rawCode_equals[of q] rawCode_no_equals[of q] by (cases "CHR ''='' \<in> set q") simp_all
  from a b c show ?thesis by blast
qed

theorem getAuthToken_no_equals_rejects_witness:
  "\<forall>self net w. \<not> includes_str ''?codeword'' ''error'' \<and> CHR ''='' \<notin> set ''?codeword''
     \<and> getAuthToken self net \<lparr>search = ''?codeword''\<rparr> w = Some (Rejected undefined_split, w)
     \<and> router self net \<lparr>search = ''?codeword''\<rparr> w = Some (Rejected undefined_split, w)"
proof (intro allI)
  fix self net w
  have h: "\<not> includes_str (search \<lparr>search = ''?codeword''\<rparr>) ''error'' \<and> CHR ''='' \<notin> set (search \<lparr>search = ''?codeword''\<rparr>)"
    by simp
  from getAuthToken_no_equals_rejects[of "\<lparr>search = ''?codeword''\<rparr>" self net w] h
  have "getAuthToken self net \<lparr>search = ''?codeword''\<rparr> w = Some (Rejected undefined_split, w)" by blast
  with h show "\<not> includes_str ''?codeword'' ''error'' \<and> CHR ''='' \<notin> set ''?codeword''
     \<and> getAuthToken self net \<lparr>search = ''?codeword''\<rparr> w = Some (Rejected undefined_split, w)
     \<and> router self net \<lparr>search = ''?codeword''\<rparr> w = Some (Rejected undefined_split, w)"
    by (simp add: router_def slice_str_def)
qed

text \<open>
  Claim C7 says that \<open>router\<close> surfaces the authorization-denied error for a query
  string that contains \<open>error=...\<close>. At \<open>?error=access_denied\<close> the code does not:
  characters 1 to 4 are not \<open>code\<close>, so \<open>router\<close> never reaches the branch of
  \<open>getAuthToken\<close> that answers a denial, and it resolves with \<open>undefined\<close>, without a
  redirect and without a request.
\<close>

theorem router_drops_error_callback:
  "router self net \<lparr>search = ''?error=access_denied''\<rparr> w = Some (Resolved RUndefined, w)"
  by (simp add: router_def slice_str_def)

subsection \<open>constructURI\<close>

lemma constructURI_for_eq:
  "constructURI_for ps skip acc =
     acc @ concat (map (\<lambda>(k, v). (k @ ''='' @ ToString v) @ ''&'') (filter (\<lambda>(k, v). Some k \<noteq> skip) ps))"
  by (induction ps skip acc rule: constructURI_for.induct) simp_all

lemma concat_sep_snoc:
  "xs \<noteq> [] \<Longrightarrow> concat (map (\<lambda>x. f x @ [c]) xs) = join [c] (map f xs) @ [c]"
  by (induction xs rule: induct_list012) simp_all

lemma constructURI_join:
  "constructURI ps skip =
     join ''&'' (map (\<lambda>(k, v). k @ ''='' @ ToString v)
       (filter (\<lambda>(k, v). Some k \<noteq> skip) (Object_entries ps)))"
proof (cases "filter (\<lambda>(k, v). Some k \<noteq> skip) (Object_entries ps) = []")
  case True
  then have "constructURI_for (Object_entries ps) skip [] = []"
    by (simp add: constructURI_for_eq)
  with True show ?thesis by (simp add: constructURI_def)
next
  case False
  have "constructURI_for (Object_entries ps) skip [] =
      concat (map (\<lambda>e. (case e of (k, v) \<Rightarrow> k @ ''='' @ ToString v) @ [CHR ''&''])
        (filter (\<lambda>(k, v). Some k \<noteq> skip) (Object_entries ps)))"
    by (simp add: constructURI_for_eq case_prod_unfold)
  also have "\<dots> = join ''&'' (map (\<lambda>(k, v). k @ ''='' @ ToString v)
        (filter (\<lambda>(k, v). Some k \<noteq> skip) (Object_entries ps))) @ ''&''"
    using False by (rule concat_sep_snoc)
  finally show ?thesis by (simp add: constructURI_def slice_0_minus1_def Let_def)
qed

lemma insort_key_map:
  "insort_key f (g x) (map g xs) = map g (insort_key (\<lambda>y. f (g y)) x xs)"
  by (induction xs) simp_all

lemma sort_key_map:
  "sort_key f (map g xs) = map g (sort_key (\<lambda>y. f (g y)) xs)"
  by (induction xs) (simp_all add: insort_key_map)

lemma Object_entries_map:
  "Object_entries (map (\<lambda>(k, v). (k, g v)) obj) = map (\<lambda>(k, v). (k, g v)) (Object_entries obj)"
  by (simp add: Object_entries_def filter_map comp_def case_prod_unfold sort_key_map)

lemma Object_entries_set: "set (Object_entries obj) = set obj"
  by (auto simp: Object_entries_def)

lemma Object_entries_no_index:
  assumes "\<forall>(k, v)\<in>set obj. \<not> is_array_index k"
  shows "Object_entries obj = obj"
proof -
  have "filter (\<lambda>(k, v). is_array_index k) obj = []"
    using assms by (auto simp: filter_empty_conv)
  moreover have "filter (\<lambda>(k, v). \<not> is_array_index k) obj = obj"
    using assms by (auto simp: filter_id_conv)
  ultimately show ?thesis by (simp add: Object_entries_def)
qed

lemma split_str_join:
  "xs \<noteq> [] \<Longrightarrow> \<forall>x\<in>set xs. c \<notin> set x \<Longrightarrow> split_str c (join [c] xs) = xs"
proof (induction xs rule: induct_list012)
  case 1 then show ?case by simp
next
  case (2 x) then show ?case by (simp add: split_str_notin)
next
  case (3 x y zs)
  have "split_str c (x @ c # join [c] (y # zs)) = x # split_str c (join [c] (y # zs))"
    using "3.prems" by (intro split_str_append) simp
  with 3 show ?case by simp
qed

text \<open>
  Claim C2, as stated, says that the pairs are joined in insertion order for every
  ordered mapping. It fails for a mapping with a key that is an array index: for the
  mapping that was filled in the order \<open>b\<close>, \<open>2\<close>, \<open>a\<close>, \<open>Object.entries\<close> lists \<open>2\<close>
  first, and \<open>constructURI\<close> returns \<open>2=x&b=1&a=3\<close>, not \<open>b=1&2=x&a=3\<close>.
\<close>

theorem constructURI_insertion_order_counterexample:
  "constructURI (map (\<lambda>(k, v). (k, JStr v)) [(''b'', ''1''), (''2'', ''x''), (''a'', ''3'')]) None
     = ''2=x&b=1&a=3''
   \<and> join ''&'' (map (\<lambda>(k, v). k @ ''='' @ v)
         (filter (\<lambda>(k, v). Some k \<noteq> None) [(''b'', ''1''), (''2'', ''x''), (''a'', ''3'')]))
     = ''b=1&2=x&a=3''
   \<and> constructURI (map (\<lambda>(k, v). (k, JStr v)) [(''b'', ''1''), (''2'', ''x''), (''a'', ''3'')]) None
     \<noteq> join ''&'' (map (\<lambda>(k, v). k @ ''='' @ v)
         (filter (\<lambda>(k, v). Some k \<noteq> None) [(''b'', ''1''), (''2'', ''x''), (''a'', ''3'')]))"
  by (simp add: constructURI_join Object_entries_def is_array_index_def is_digit_def
      decimal_value_def digit_value_def)

text \<open>
  Claim C2, amended. For every ordered mapping from strings to strings and every
  optional \<open>skip\<close>, \<open>constructURI\<close> returns the pairs whose key is not \<open>skip\<close>, each
  once as \<open>key=value\<close>, joined by \<open>&\<close>, nothing before the first pair and nothing after
  the last, in the order of \<open>Object.entries\<close>: the keys that are array indices first, in
  ascending numeric order, then the other keys in insertion order. When no key is an
  array index (the property names of \<open>Options\<close> are identifiers) that order is the
  insertion order. When no key and no value contains \<open>&\<close> and a pair is kept, splitting
  the result on \<open>&\<close> gives back exactly those \<open>key=value\<close> strings. The empty mapping
  gives the empty string, and so does a single entry whose key is \<open>skip\<close>.
\<close>

theorem constructURI_joined:
  "constructURI (map (\<lambda>(k, v). (k, JStr v)) params) skip =
     join ''&'' (map (\<lambda>(k, v). k @ ''='' @ v)
       (filter (\<lambda>(k, v). Some k \<noteq> skip) (Object_entries params)))
   \<and> ((\<forall>(k, v)\<in>set params. \<not> is_array_index k)
      \<longrightarrow> constructURI (map (\<lambda>(k, v). (k, JStr v)) params) skip =
            join ''&'' (map (\<lambda>(k, v). k @ ''='' @ v) (filter (\<lambda>(k, v). Some k \<noteq> skip) params)))
   \<and> ((\<forall>(k, v)\<in>set params. CHR ''&'' \<notin> set k \<and> CHR ''&'' \<notin> set v)
        \<and> filter (\<lambda>(k, v). Some k \<noteq> skip) params \<noteq> []
      \<longrightarrow> split_str CHR ''&'' (constructURI (map (\<lambda>(k, v). (k, JStr v)) params) skip)
            = map (\<lambda>(k, v). k @ ''='' @ v)
                (filter (\<lambda>(k, v). Some k \<noteq> skip) (Object_entries params)))
   \<and> constructURI [] skip = []
   \<and> constructURI [(k, JStr v)] (Some k) = []"
proof -
  let ?kept = "filter (\<lambda>(k, v). Some k \<noteq> skip) (Object_entries params)"
  have a: "constructURI (map (\<lambda>(k, v). (k, JStr v)) params) skip =
     join ''&'' (map (\<lambda>(k, v). k @ ''='' @ v) ?kept)"
    unfolding constructURI_join Object_entries_map
    by (simp add: case_prod_unfold filter_map comp_def)
  have a': "constructURI (map (\<lambda>(k, v). (k, JStr v)) params) skip =
            join ''&'' (map (\<lambda>(k, v). k @ ''='' @ v) (filter (\<lambda>(k, v). Some k \<noteq> skip) params))"
    if "\<forall>(k, v)\<in>set params. \<not> is_array_index k"
    unfolding a Object_entries_no_index[OF that] ..
  have b: "split_str CHR ''&'' (constructURI (map (\<lambda>(k, v). (k, JStr v)) params) skip)
            = map (\<lambda>(k, v). k @ ''='' @ v) ?kept"
    if h: "\<forall>(k, v)\<in>set params. CHR ''&'' \<notin> set k \<and> CHR ''&'' \<notin> set v"
          "filter (\<lambda>(k, v). Some k \<noteq> skip) params \<noteq> []"
  proof -
    have "\<forall>x\<in>set (map (\<lambda>(k, v). k @ ''='' @ v) ?kept). CHR ''&'' \<notin> set x"
      using h(1) by (auto simp: Object_entries_set)
    moreover have "?kept \<noteq> []"
      using h(2) by (simp add: filter_empty_conv Object_entries_set)
    then have "map (\<lambda>(k, v). k @ ''='' @ v) ?kept \<noteq> []" by simp
    ultimately show ?thesis unfolding a by (intro split_str_join)
  qed
  have c: "constructURI [] skip = []"
    by (simp add: constructURI_join Object_entries_def)
  have d: "constructURI [(k, JStr v)] (Some k) = []"
  proof -
    have "filter (\<lambda>(k', v'). Some k' \<noteq> Some k) (Object_entries [(k, JStr v)]) = []"
      by (auto simp: filter_empty_conv Object_entries_set)
    then show ?thesis by (simp add: constructURI_join)
  qed
  from a a' b c d show ?thesis by blast
qed

theorem constructURI_joined_witness:
  "list_all (\<lambda>(k, v). \<not> is_array_index k)
     [(''client_id'', ''123''), (''client_secret'', ''shh''), (''state'', ''xyz'')]
   \<and> list_all (\<lambda>(k, v). CHR ''&'' \<notin> set k \<and> CHR ''&'' \<notin> set v)
     [(''client_id'', ''123''), (''client_secret'', ''shh''), (''state'', ''xyz'')]
   \<and> constructURI [(''client_id'', JStr ''123''), (''client_secret'', JStr ''shh''), (''state'', JStr ''xyz'')]
        (Some ''client_secret'') = ''client_id=123&state=xyz''
   \<and> split_str CHR ''&'' (constructURI
        [(''client_id'', JStr ''123''), (''client_secret'', JStr ''shh''), (''state'', JStr ''xyz'')]
        (Some ''client_secret'')) = [''client_id=123'', ''state=xyz'']"
proof -
  have n: "list_all (\<lambda>(k, v). \<not> is_array_index k)
     [(''client_id'', ''123''), (''client_secret'', ''shh''), (''state'', ''xyz'')]"
    by (simp add: is_array_index_def is_digit_def)
  have e: "Object_entries [(''client_id'', ''123''), (''client_secret'', ''shh''), (''state'', ''xyz'')]
      = [(''client_id'', ''123''), (''client_secret'', ''shh''), (''state'', ''xyz'')]"
    by (rule Object_entries_no_index) (simp add: is_array_index_def is_digit_def)
  from constructURI_joined[of "[(''client_id'', ''123''), (''client_secret'', ''shh''), (''state'', ''xyz'')]"
          "Some ''client_secret''"] n
  show ?thesis unfolding e by simp
qed

subsection \<open>The code that getAuthToken sends\<close>

lemma getAuthData_world:
  "\<exists>out more. getAuthData self net parsed w = (out, w\<lparr>fetched := fetched w @ more\<rparr>)"
proof (cases "get_prop parsed ''access_token''")
  case (Inl e)
  then have "getAuthData self net parsed w = (Rejected e, w\<lparr>fetched := fetched w @ []\<rparr>)"
    by (simp add: getAuthData_def)
  then show ?thesis by blast
next
  case at: (Inr a)
  show ?thesis
  proof (cases "get_prop parsed ''token_type''")
    case (Inl e)
    with at have "getAuthData self net parsed w = (Rejected e, w\<lparr>fetched := fetched w @ []\<rparr>)"
      by (simp add: getAuthData_def)
    then show ?thesis by blast
  next
    case tt: (Inr t)
    show ?thesis
    proof (cases "get_prop parsed ''expires_in''")
      case (Inl e)
      with at tt have "getAuthData self net parsed w = (Rejected e, w\<lparr>fetched := fetched w @ []\<rparr>)"
        by (simp add: getAuthData_def)
      then show ?thesis by blast
    next
      case (Inr ei)
      with at tt have "\<exists>out u. getAuthData self net parsed w = (out, w\<lparr>fetched := fetched w @ [u]\<rparr>)"
        by (auto simp add: getAuthData_def fetch_json_def Let_def split: fetch_result.splits sum.splits)
      then show ?thesis by blast
    qed
  qed
qed

lemma tokenOptions_entries: "Object_entries (tokenOptions self code) = tokenOptions self code"
  by (rule Object_entries_no_index) (simp add: tokenOptions_def is_array_index_def is_digit_def)

lemma tokenOptions_uri:
  "constructURI (tokenOptions self code) None =
     ''client_id='' @ ToString (opt (options self) ''client_id'')
     @ ''&redirect_uri='' @ ToString (opt (options self) ''redirect_uri'')
     @ ''&client_secret='' @ ToString (opt (options self) ''client_secret'')
     @ ''&code='' @ code"
  unfolding constructURI_join tokenOptions_entries by (simp add: tokenOptions_def)

lemma getAuthToken_first_fetch:
  assumes "\<not> includes_str (search ctx) ''error''"
    and "rawCode (search ctx) = Inr raw"
    and "parseCode raw = Some code"
  shows "\<exists>out more. getAuthToken self net ctx w =
           Some (out, w\<lparr>fetched := fetched w
                   @ (tokenURL self @ constructURI (tokenOptions self code) None) # more\<rparr>)"
proof -
  let ?url = "tokenURL self @ constructURI (tokenOptions self code) None"
  let ?w1 = "w\<lparr>fetched := fetched w @ [?url]\<rparr>"
  show ?thesis
  proof (cases "net (fetched w) ?url")
    case (Throws err)
    with assms have "getAuthToken self net ctx w = Some (Resolved (getAuthToken_catch err), ?w1)"
      by (simp add: getAuthToken_def fetch_json_def)
    then show ?thesis by blast
  next
    case (Json data)
    show ?thesis
    proof (cases "get_prop data ''type''")
      case (Inl err)
      with Json assms have "getAuthToken self net ctx w = Some (Resolved (getAuthToken_catch err), ?w1)"
        by (simp add: getAuthToken_def fetch_json_def)
      then show ?thesis by blast
    next
      case (Inr ty)
      show ?thesis
      proof (cases "ty = JStr ''oAuthException''")
        case True
        with Inr Json assms have "getAuthToken self net ctx w =
            Some (Resolved (RError (Error
              ''ERROR in getAuthToken: Token request threw OAuth exception.'')), ?w1)"
          by (simp add: getAuthToken_def fetch_json_def)
        then show ?thesis by blast
      next
        case False
        with Inr Json assms have g: "getAuthToken self net ctx w = Some (getAuthData self net data ?w1)"
          by (simp add: getAuthToken_def fetch_json_def)
        from getAuthData_world[of self net data ?w1] obtain out more where
          "getAuthData self net data ?w1 = (out, ?w1\<lparr>fetched := fetched ?w1 @ more\<rparr>)" by blast
        then have "getAuthData self net data ?w1 = (out, w\<lparr>fetched := fetched w @ ?url # more\<rparr>)"
          by simp
        with g have "getAuthToken self net ctx w = Some (out, w\<lparr>fetched := fetched w @ ?url # more\<rparr>)"
          by simp
        then show ?thesis by blast
      qed
    qed
  qed
qed

text \<open>
  Claim C4. For the query string \<open>?code=abc%3D123&state=xyz\<close>: splitting on \<open>=\<close>,
  taking element 1, splitting it on \<open>&\<close> and taking element 0 gives the fragment
  \<open>abc%3D123\<close>, and \<open>parseCode\<close> decodes it to \<open>abc=123\<close>. This is the step
  \<open>getAuthToken\<close> performs: called with that query string, on any instance, network and
  world, the first request it makes is to the token URL built from the decoded code,
  whose query string ends in \<open>&code=abc=123\<close>.
\<close>

theorem code_extraction_example:
  "split_str CHR ''='' ''?code=abc%3D123&state=xyz'' = [''?code'', ''abc%3D123&state'', ''xyz'']
   \<and> at_index (split_str CHR ''='' ''?code=abc%3D123&state=xyz'') 1 = Some ''abc%3D123&state''
   \<and> split_str CHR ''&'' ''abc%3D123&state'' = [''abc%3D123'', ''state'']
   \<and> rawCode ''?code=abc%3D123&state=xyz'' = Inr ''abc%3D123''
   \<and> parseCode ''abc%3D123'' = Some ''abc=123''
   \<and> (\<exists>out more. getAuthToken self net \<lparr>search = ''?code=abc%3D123&state=xyz''\<rparr> w =
          Some (out, w\<lparr>fetched := fetched w
                  @ (tokenURL self
                     @ ''client_id='' @ ToString (opt (options self) ''client_id'')
                     @ ''&redirect_uri='' @ ToString (opt (options self) ''redirect_uri'')
                     @ ''&client_secret='' @ ToString (opt (options self) ''client_secret'')
                     @ ''&code=abc=123'') # more\<rparr>))"
proof -
  let ?ctx = "\<lparr>search = ''?code=abc%3D123&state=xyz''\<rparr>"
  have e: "\<not> includes_str (search ?ctx) ''error''" by simp
  have r: "rawCode (search ?ctx) = Inr ''abc%3D123''" by (simp add: rawCode_def)
  have p: "parseCode ''abc%3D123'' = Some ''abc=123''"
    by (simp add: parseCode_decode replacements_def)
  have eq: "''&code='' @ ''abc=123'' = ''&code=abc=123''" by simp
  have "\<exists>out more. getAuthToken self net ?ctx w =
          Some (out, w\<lparr>fetched := fetched w
                  @ (tokenURL self @ constructURI (tokenOptions self ''abc=123'') None) # more\<rparr>)"
    using e r p by (rule getAuthToken_first_fetch)
  then have g: "\<exists>out more. getAuthToken self net ?ctx w =
          Some (out, w\<lparr>fetched := fetched w
                  @ (tokenURL self
                     @ ''client_id='' @ ToString (opt (options self) ''client_id'')
                     @ ''&redirect_uri='' @ ToString (opt (options self) ''redirect_uri'')
                     @ ''&client_secret='' @ ToString (opt (options self) ''client_secret'')
                     @ ''&code=abc=123'') # more\<rparr>)"
    unfolding tokenOptions_uri append_assoc eq .
  have s1: "split_str CHR ''='' ''?code=abc%3D123&state=xyz'' = [''?code'', ''abc%3D123&state'', ''xyz'']"
    by simp
  have s2: "at_index (split_str CHR ''='' ''?code=abc%3D123&state=xyz'') 1 = Some ''abc%3D123&state''"
    by simp
  have s3: "split_str CHR ''&'' ''abc%3D123&state'' = [''abc%3D123'', ''state'']"
    by simp
  from r have r': "rawCode ''?code=abc%3D123&state=xyz'' = Inr ''abc%3D123''" by simp
  show ?thesis
    apply (intro conjI)
         apply (rule s1)
        apply (rule s2)
       apply (rule s3)
      apply (rule r')
     apply (rule p)
    apply (rule g)
    done
qed

subsection \<open>The constructor\<close>

text \<open>
  Claim C8. For options typed as the interface says (each required field is a string
  or is missing), the constructor throws its missing-arguments error exactly when one of
  \<open>client_id\<close>, \<open>client_secret\<close>, \<open>redirect_uri\<close>, \<open>state\<close> is missing or the empty
  string, and it returns an instance exactly when all four are present and non-empty.
  The constructor is a function of the options alone: it has no world to fetch in.
\<close>

theorem constructor_required_fields:
  assumes "\<forall>k\<in>set [''client_id'', ''client_secret'', ''redirect_uri'', ''state''].
             opt options' k = JUndefined \<or> (\<exists>s. opt options' k = JStr s)"
  shows "(constructor options' =
            Inl (Error ''ERROR in FacebookStrategy constructor: Missing required arguments'')
          \<longleftrightarrow> (\<exists>k\<in>set [''client_id'', ''client_secret'', ''redirect_uri'', ''state''].
                 opt options' k = JUndefined \<or> opt options' k = JStr []))
       \<and> ((\<exists>self. constructor options' = Inr self)
          \<longleftrightarrow> \<not> (\<exists>k\<in>set [''client_id'', ''client_secret'', ''redirect_uri'', ''state''].
                 opt options' k = JUndefined \<or> opt options' k = JStr []))"
proof -
  have f: "falsy (opt options' k) \<longleftrightarrow> opt options' k = JUndefined \<or> opt options' k = JStr []"
    if "k \<in> set [''client_id'', ''client_secret'', ''redirect_uri'', ''state'']" for k
    using assms that by (cases "opt options' k") auto
  have f1: "falsy (opt options' ''client_id'') \<longleftrightarrow> opt options' ''client_id'' = JUndefined \<or> opt options' ''client_id'' = JStr []"
    by (rule f) simp
  have f2: "falsy (opt options' ''client_secret'') \<longleftrightarrow> opt options' ''client_secret'' = JUndefined \<or> opt options' ''client_secret'' = JStr []"
    by (rule f) simp
  have f3: "falsy (opt options' ''redirect_uri'') \<longleftrightarrow> opt options' ''redirect_uri'' = JUndefined \<or> opt options' ''redirect_uri'' = JStr []"
    by (rule f) simp
  have f4: "falsy (opt options' ''state'') \<longleftrightarrow> opt options' ''state'' = JUndefined \<or> opt options' ''state'' = JStr []"
    by (rule f) simp
  show ?thesis
    unfolding constructor_def f1 f2 f3 f4 by auto
qed

theorem constructor_required_fields_witness:
  "list_all (\<lambda>k. opt example_options k = JUndefined \<or> (\<exists>s. opt example_options k = JStr s))
     [''client_id'', ''client_secret'', ''redirect_uri'', ''state'']
   \<and> (\<exists>self. constructor example_options = Inr self)
   \<and> list_all (\<lambda>k. opt [(''client_id'', JStr []), (''client_secret'', JStr ''shh''), (''state'', JStr ''xyz'')] k = JUndefined
          \<or> (\<exists>s. opt [(''client_id'', JStr []), (''client_secret'', JStr ''shh''), (''state'', JStr ''xyz'')] k = JStr s))
     [''client_id'', ''client_secret'', ''redirect_uri'', ''state'']
   \<and> constructor [(''client_id'', JStr []), (''client_secret'', JStr ''shh''), (''state'', JStr ''xyz'')] =
         Inl (Error ''ERROR in FacebookStrategy constructor: Missing required arguments'')"
  using constructor_required_fields[of example_options]
    constructor_required_fields[of "[(''client_id'', JStr []), (''client_secret'', JStr ''shh''), (''state'', JStr ''xyz'')]"]
  by (simp add: opt_def example_options_def)

subsection \<open>The exchange sequence\<close>

lemma example_constructor: "constructor example_options = Inr example_strategy"
  by (simp add: constructor_def example_options_def example_strategy_def opt_def constructURI_def Object_entries_def is_array_index_def is_digit_def
      slice_0_minus1_def)

lemma example_token_url_eq:
  "tokenURL example_strategy @ constructURI (tokenOptions example_strategy ''abc=123'') None = example_token_url"
  by (simp add: example_strategy_def example_options_def tokenOptions_def opt_def constructURI_def Object_entries_def is_array_index_def is_digit_def
      slice_0_minus1_def example_token_url_def)

lemma example_identity_url_eq:
  "authDataURL example_strategy @ constructURI
                [(''input_token'', JStr ''T''),
                 (''access_token'', JStr (ToString (opt example_options ''client_id'') @ ''|''
                                          @ ToString (opt example_options ''client_secret'')))] None
    = example_identity_url"
  by (simp add: example_strategy_def example_options_def opt_def constructURI_def Object_entries_def is_array_index_def is_digit_def
      slice_0_minus1_def example_identity_url_def)

text \<open>
  Claim C6. When the query string passes the first two steps of \<open>getAuthToken\<close> and
  the token-exchange request returns a JSON body whose \<open>type\<close> is \<open>oAuthException\<close>,
  \<open>getAuthToken\<close> resolves with the token-exchange \<open>Error\<close> value, and the only URL
  fetched is the token URL: \<open>getAuthData\<close> is not called and the identity lookup is not
  requested.
\<close>

theorem getAuthToken_oAuthException:
  assumes "\<not> includes_str (search ctx) ''error''"
    and "rawCode (search ctx) = Inr raw"
    and "parseCode raw = Some code"
    and "net (fetched w) (tokenURL self @ constructURI (tokenOptions self code) None) = Json data"
    and "get_prop data ''type'' = Inr (JStr ''oAuthException'')"
  shows "getAuthToken self net ctx w =
           Some (Resolved (RError (Error
                   ''ERROR in getAuthToken: Token request threw OAuth exception.'')),
                 w\<lparr>fetched := fetched w @ [tokenURL self @ constructURI (tokenOptions self code) None]\<rparr>)"
  using assms by (simp add: getAuthToken_def fetch_json_def)

theorem getAuthToken_oAuthException_witness:
  "\<not> includes_str ''?code=abc%3D123&state=xyz'' ''error''
   \<and> rawCode ''?code=abc%3D123&state=xyz'' = Inr ''abc%3D123''
   \<and> parseCode ''abc%3D123'' = Some ''abc=123''
   \<and> get_prop (JObj [(''type'', JStr ''oAuthException'')]) ''type'' = Inr (JStr ''oAuthException'')
   \<and> getAuthToken example_strategy refusing_network \<lparr>search = ''?code=abc%3D123&state=xyz''\<rparr>
         \<lparr>fetched = [], redirected = []\<rparr> =
       Some (Resolved (RError (Error
                   ''ERROR in getAuthToken: Token request threw OAuth exception.'')),
             \<lparr>fetched = [example_token_url], redirected = []\<rparr>)"
proof -
  let ?ctx = "\<lparr>search = ''?code=abc%3D123&state=xyz''\<rparr>"
  let ?w = "\<lparr>fetched = [], redirected = []\<rparr>"
  let ?data = "JObj [(''type'', JStr ''oAuthException'')]"
  have h1: "\<not> includes_str (search ?ctx) ''error''" by simp
  have h2: "rawCode (search ?ctx) = Inr ''abc%3D123''" by (simp add: rawCode_def)
  have h3: "parseCode ''abc%3D123'' = Some ''abc=123''"
    by (simp add: parseCode_decode replacements_def)
  have h4: "refusing_network (fetched ?w)
              (tokenURL example_strategy @ constructURI (tokenOptions example_strategy ''abc=123'') None) = Json ?data"
    by (simp add: refusing_network_def)
  have h5: "get_prop ?data ''type'' = Inr (JStr ''oAuthException'')" by simp
  from getAuthToken_oAuthException[where net = refusing_network and self = example_strategy and w = ?w and ctx = ?ctx,
      OF h1 h2 h3 h4 h5] h1 h2 h3 h5
  show ?thesis unfolding example_token_url_eq by simp
qed

text \<open>
  Claim C1. For an instance the constructor returned and a query string \<open>?code=...\<close> that
  does not contain \<open>error\<close>, with \<open>code\<close> the decoded fragment: when the token-exchange
  request returns \<open>{"access_token":"T","token_type":"bearer","expires_in":3600}\<close> and
  the identity lookup that follows returns \<open>{"data":{"user_id":"U1"}}\<close>,
  \<open>getAuthToken\<close> resolves with the \<open>AuthData\<close> of token \<open>T\<close>, type \<open>bearer\<close>,
  lifetime 3600, provider \<open>facebook\<close> and user \<open>U1\<close>, after exactly these two requests.
\<close>

theorem getAuthToken_end_to_end:
  assumes "constructor options' = Inr self"
    and "search ctx = ''?code='' @ rest"
    and "\<not> includes_str (search ctx) ''error''"
    and "parseCode (takeWhile (\<lambda>c. c \<noteq> CHR ''&'') (takeWhile (\<lambda>c. c \<noteq> CHR ''='') rest)) = Some code"
    and "net (fetched w) (tokenURL self @ constructURI (tokenOptions self code) None) =
           Json (JObj [(''access_token'', JStr ''T''), (''token_type'', JStr ''bearer''),
                       (''expires_in'', JNum 3600)])"
    and "net (fetched w @ [tokenURL self @ constructURI (tokenOptions self code) None])
             (authDataURL self @ constructURI
                [(''input_token'', JStr ''T''),
                 (''access_token'', JStr (ToString (opt options' ''client_id'') @ ''|''
                                          @ ToString (opt options' ''client_secret'')))] None) =
           Json (JObj [(''data'', JObj [(''user_id'', JStr ''U1'')])])"
  shows "getAuthToken self net ctx w =
           Some (Resolved (RAuthData
                   \<lparr> tokenData = \<lparr> access_token = JStr ''T'', token_type = JStr ''bearer'',
                                    expires_in = JNum 3600 \<rparr>,
                     userInfo = \<lparr> provider = ''facebook'', providerUserId = JStr ''U1'' \<rparr> \<rparr>),
                 w\<lparr>fetched := fetched w @
                    [tokenURL self @ constructURI (tokenOptions self code) None,
                     authDataURL self @ constructURI
                       [(''input_token'', JStr ''T''),
                        (''access_token'', JStr (ToString (opt options' ''client_id'') @ ''|''
                                                 @ ToString (opt options' ''client_secret'')))] None]\<rparr>)"
proof -
  from assms(1) have self: "name self = ''facebook''" "options self = options'"
    by (auto simp: constructor_def split: if_splits)
  have raw: "rawCode (search ctx) = Inr (takeWhile (\<lambda>c. c \<noteq> CHR ''&'') (takeWhile (\<lambda>c. c \<noteq> CHR ''='') rest))"
    unfolding assms(2) by (rule rawCode_code)
  show ?thesis
    using assms(3,4,5,6) raw self
    by (simp add: getAuthToken_def fetch_json_def getAuthData_def authOptions_def)
qed

theorem getAuthToken_end_to_end_witness:
  "constructor example_options = Inr example_strategy
   \<and> \<not> includes_str ''?code=abc%3D123&state=xyz'' ''error''
   \<and> getAuthToken example_strategy example_network \<lparr>search = ''?code=abc%3D123&state=xyz''\<rparr>
         \<lparr>fetched = [], redirected = []\<rparr> =
       Some (Resolved (RAuthData
                   \<lparr> tokenData = \<lparr> access_token = JStr ''T'', token_type = JStr ''bearer'',
                                    expires_in = JNum 3600 \<rparr>,
                     userInfo = \<lparr> provider = ''facebook'', providerUserId = JStr ''U1'' \<rparr> \<rparr>),
             \<lparr>fetched = [example_token_url, example_identity_url], redirected = []\<rparr>)"
proof -
  let ?ctx = "\<lparr>search = ''?code=abc%3D123&state=xyz''\<rparr>"
  let ?w = "\<lparr>fetched = [], redirected = []\<rparr>"
  have h2: "search ?ctx = ''?code='' @ ''abc%3D123&state=xyz''" by simp
  have h3: "\<not> includes_str (search ?ctx) ''error''" by simp
  have h4: "parseCode (takeWhile (\<lambda>c. c \<noteq> CHR ''&'') (takeWhile (\<lambda>c. c \<noteq> CHR ''='') ''abc%3D123&state=xyz''))
              = Some ''abc=123''"
    by (simp add: parseCode_decode replacements_def)
  have h5: "example_network (fetched ?w)
              (tokenURL example_strategy @ constructURI (tokenOptions example_strategy ''abc=123'') None) =
           Json (JObj [(''access_token'', JStr ''T''), (''token_type'', JStr ''bearer''),
                       (''expires_in'', JNum 3600)])"
    unfolding example_token_url_eq by (simp add: example_network_def)
  have h6: "example_network
             (fetched ?w @ [tokenURL example_strategy @ constructURI (tokenOptions example_strategy ''abc=123'') None])
             (authDataURL example_strategy @ constructURI
                [(''input_token'', JStr ''T''),
                 (''access_token'', JStr (ToString (opt example_options ''client_id'') @ ''|''
                                          @ ToString (opt example_options ''client_secret'')))] None) =
           Json (JObj [(''data'', JObj [(''user_id'', JStr ''U1'')])])"
    unfolding example_token_url_eq example_identity_url_eq
    by (simp add: example_network_def example_token_url_def example_identity_url_def)
  from getAuthToken_end_to_end[OF example_constructor h2 h3 h4 h5 h6] h3 example_constructor
  show ?thesis
    unfolding example_token_url_eq example_identity_url_eq by simp
qed

end
